theory Spec2Isabelle
  imports Complex_Main "HOL-Library.Word" "HOL-Library.Sublist"
begin

unbundle bit_operations_syntax

section \<open>Python values\<close>

text \<open>
  The values a YAML configuration document or a papermill parameter cell can hold here:
  strings, integers and booleans. \<open>truthy\<close> is the test an \<open>if\<close> statement applies,
  \<open>str_of\<close> is Python's \<open>str()\<close>, which \<open>expand\<close> uses to fill a placeholder.
\<close>

datatype pyval = PStr string | PInt int | PBool bool | PNone

fun truthy :: "pyval \<Rightarrow> bool" where
  "truthy (PStr s) = (s \<noteq> [])"
| "truthy (PInt i) = (i \<noteq> 0)"
| "truthy (PBool b) = b"
| "truthy PNone = False"

definition digit_char :: "nat \<Rightarrow> char" where
  "digit_char d = char_of (48 + d)"

fun str_nat :: "nat \<Rightarrow> string" where
  "str_nat n = (if n < 10 then [digit_char n] else str_nat (n div 10) @ [digit_char (n mod 10)])"

definition str_int :: "int \<Rightarrow> string" where
  "str_int i = (if i < 0 then CHR ''-'' # str_nat (nat (- i)) else str_nat (nat i))"

fun str_of :: "pyval \<Rightarrow> string" where
  "str_of (PStr s) = s"
| "str_of (PInt i) = str_int i"
| "str_of (PBool b) = (if b then ''True'' else ''False'')"
| "str_of PNone = ''None''"

text \<open>The exceptions that end a run, as values.\<close>

datatype py_error =
    FileNotFoundError string
  | KeyError string
  | NameError string
  | IndexError
  | ValueError string
  | InvalidIndexError

section \<open>The merged-data dimensionality-reduction notebook\<close>

text \<open>
  \<open>workflow/notebooks/merged_dim_reduc_diff_params.ipynb\<close>. The notebook is a straight
  line of calls into scanpy; the model is the sequence of library calls a run issues,
  each with the arguments the source passes. An argument the source leaves out is
  \<open>None\<close>: the library then takes its own default. A call that raises ends the run:
  \<open>Raise\<close> is then the last entry and no later call is issued.
\<close>

record params =
  input_file :: string
  layer_to_use :: string
  scale_data_before_pca :: bool
  genes_for_pca :: string
  cc_method :: string
  pca_n_components :: int
  umap_n_neighbors :: int

datatype action =
    Read_h5ad string
  | Set_X_from_layer string
  | Read_cell_cycle_genes
  | Scale
  | Score_genes_cell_cycle
  | Set_cell_cycle_diff
  | Compute_top_hvgs2
  | Highly_variable_genes "string option"
  | Set_highly_variable_from_top_hvgs2
  | Regress_out "string list"
  | Pca int bool
  | Neighbors "int option" "int option"
  | Umap int rat rat
  | Print string
  | Raise py_error

text \<open>\<open>adata = sc.read_h5ad(input_file, backed = False)\<close>\<close>

definition cell_read :: "params \<Rightarrow> action list" where
  "cell_read p = [Read_h5ad (input_file p)]"

text \<open>\<open>adata.X = adata.layers[layer_to_use].copy()\<close>\<close>

definition cell_set_X :: "params \<Rightarrow> action list" where
  "cell_set_X p = [Set_X_from_layer (layer_to_use p)]"

text \<open>Cell-cycle scoring on the scaled matrix; the unscaled layer is restored on request.\<close>

definition cell_cell_cycle :: "params \<Rightarrow> action list" where
  "cell_cell_cycle p =
     [Read_cell_cycle_genes, Scale, Score_genes_cell_cycle, Set_cell_cycle_diff] @
     (if \<not> scale_data_before_pca p
      then [Set_X_from_layer (layer_to_use p), Print ''Not scaling data before PCA'']
      else [Print ''Scaling data before PCA''])"

text \<open>The two cells handing the matrix to R, which computes \<open>top_hvgs2\<close>.\<close>

definition cell_to_R :: "params \<Rightarrow> action list" where
  "cell_to_R p = [Set_X_from_layer (layer_to_use p), Compute_top_hvgs2]"

text \<open>
  The gene-selection cell. Its first test is \<open>if "globally_highly_variable":\<close>, the
  truth value of a string literal, not a comparison with \<open>genes_for_pca\<close>.
\<close>

definition cell_select_genes :: "params \<Rightarrow> action list" where
  "cell_select_genes p =
     (if truthy (PStr ''globally_highly_variable'')
      then [Highly_variable_genes None, Print ''Using globally highly variable genes'']
      else if genes_for_pca p = ''highly_variable_per_sample''
      then [Highly_variable_genes (Some ''sample''),
            Print (''Using highly variable genes per sample. This simple process avoids ''
                   @ ''the selection of batch-specific genes and acts as a lightweight ''
                   @ ''batch correction method.'')]
      else []) @
     (if cc_method p = ''cc_genes_out''
      then [Set_highly_variable_from_top_hvgs2,
            Print ''Removing cell cycle genes from highly variable genes'']
      else if cc_method p = ''regress_out''
      then [Regress_out [''S_score'', ''G2M_score''], Print ''Regressing out cell cycle scores'']
      else if cc_method p = ''cc_difference_regressed_out''
      then [Regress_out [''cell_cycle_diff''],
            Print ''Regressing out cell cycle difference score'']
      else if cc_method p = ''None''
      then [Print ''Not removing cell cycle effects'']
      else [])"

text \<open>
  \<open>sc.tl.pca(adata, n_comps = pca_n_components,
       use_highly_variable = False if genes_for_pca == "all" else True)\<close>,
  \<open>sc.pp.neighbors(adata, n_pcs = umap_n_neighbors)\<close>,
  \<open>sc.tl.umap(adata, n_components=2, min_dist=0.1, spread=5)\<close>.
  \<open>Neighbors\<close> carries the \<open>n_neighbors\<close> argument first and \<open>n_pcs\<close> second.
  The PCA stores \<open>pca_n_components\<close> columns in \<open>X_pca\<close> (the merged dataset has more
  cells and genes than that). Asked for more columns than \<open>X_pca\<close> has, the
  neighbour-graph call raises \<open>ValueError\<close>, and \<open>sc.tl.umap\<close> is not reached.
\<close>

definition cell_pca_neighbors_umap :: "params \<Rightarrow> action list" where
  "cell_pca_neighbors_umap p =
     [Pca (pca_n_components p) (if genes_for_pca p = ''all'' then False else True),
      Neighbors None (Some (umap_n_neighbors p))] @
     (if pca_n_components p < umap_n_neighbors p
      then [Raise (ValueError ''X_pca does not have enough PCs'')]
      else [Umap 2 (1 / 10) 5])"

definition until_gene_selection :: "params \<Rightarrow> action list" where
  "until_gene_selection p =
     cell_read p @ cell_set_X p @ cell_cell_cycle p @ cell_to_R p @ cell_select_genes p"

definition dim_reduc_run :: "params \<Rightarrow> action list" where
  "dim_reduc_run p = until_gene_selection p @ cell_pca_neighbors_umap p"

fun is_highly_variable_call :: "action \<Rightarrow> bool" where
  "is_highly_variable_call (Highly_variable_genes bk) = True"
| "is_highly_variable_call a = False"





section \<open>The per-sample stage notebooks\<close>

text \<open>
  Dimensionality reduction, clustering and normalization each take \<open>input_file\<close> as a
  papermill parameter, load it with \<open>sc.read_h5ad(input_file)\<close>, compute, and save.
  Storage is a map from paths to artifacts. An artifact is the sequence of blocks that
  make up the file, so that a write in progress is visible as a proper prefix.
  What a notebook computes between load and save is the parameter \<open>update\<close>;
  \<open>input_h5ad\<close> stands for the notebooks' \<open>input_file\<close>.
\<close>

type_synonym 'b storage = "string \<rightharpoonup> 'b list"

datatype 'b file_op =
    Read string
  | Write string "'b list"
  | Rename string string

text \<open>
  The storage states an operation passes through, in order. \<open>write_h5ad\<close> truncates the
  target and fills it block by block; \<open>os.rename\<close> replaces the target in one step and
  the source name is gone afterwards (a missing source raises and changes nothing).
\<close>

fun op_states :: "'b file_op \<Rightarrow> 'b storage \<Rightarrow> 'b storage list" where
  "op_states (Read p) st = [st]"
| "op_states (Write p a) st = map (\<lambda>k. st(p \<mapsto> take k a)) [0..<Suc (length a)]"
| "op_states (Rename src dst) st =
     (case st src of
        None \<Rightarrow> [st]
      | Some a \<Rightarrow> [(st(src := None))(dst \<mapsto> a)])"

fun run_states :: "'b file_op list \<Rightarrow> 'b storage \<Rightarrow> 'b storage list" where
  "run_states [] st = []"
| "run_states (x # xs) st = op_states x st @ run_states xs (last (op_states x st))"

definition final_storage :: "'b file_op list \<Rightarrow> 'b storage \<Rightarrow> 'b storage" where
  "final_storage ops st = last (st # run_states ops st)"

fun read_paths :: "'b file_op list \<Rightarrow> string list" where
  "read_paths [] = []"
| "read_paths (Read p # xs) = p # read_paths xs"
| "read_paths (x # xs) = read_paths xs"

fun written_paths :: "'b file_op list \<Rightarrow> string list" where
  "written_paths [] = []"
| "written_paths (Write p a # xs) = p # written_paths xs"
| "written_paths (x # xs) = written_paths xs"

text \<open>
  Dimensionality reduction and clustering end with \<open>adata.write_h5ad(input_file)\<close>
  ("update / save to the same file").
\<close>

definition dimensionality_reduction ::
  "('b list \<Rightarrow> 'b list) \<Rightarrow> string \<Rightarrow> 'b storage \<Rightarrow> py_error + 'b file_op list" where
  "dimensionality_reduction update input_h5ad st =
     (case st input_h5ad of
        None \<Rightarrow> Inl (FileNotFoundError input_h5ad)
      | Some adata \<Rightarrow> Inr [Read input_h5ad, Write input_h5ad (update adata)])"

definition clustering ::
  "('b list \<Rightarrow> 'b list) \<Rightarrow> string \<Rightarrow> 'b storage \<Rightarrow> py_error + 'b file_op list" where
  "clustering update input_h5ad st =
     (case st input_h5ad of
        None \<Rightarrow> Inl (FileNotFoundError input_h5ad)
      | Some adata \<Rightarrow> Inr [Read input_h5ad, Write input_h5ad (update adata)])"

text \<open>
  Normalization ends with
  \<^verbatim>\<open>random_string = np.random.bytes(10).hex()\<close>,
  \<^verbatim>\<open>adata.write_h5ad(input_file + random_string + ".tmp.h5ad")\<close>,
  \<^verbatim>\<open>os.rename(input_file + random_string + ".tmp.h5ad", input_file)\<close>.
  The ten random bytes are an argument of the model.
\<close>

definition hex_digit :: "nat \<Rightarrow> char" where
  "hex_digit d = (if d < 10 then char_of (48 + d) else char_of (87 + d))"

definition hex_byte :: "8 word \<Rightarrow> string" where
  "hex_byte b = [hex_digit (unat b div 16), hex_digit (unat b mod 16)]"

definition hex :: "8 word list \<Rightarrow> string" where
  "hex bs = concat (map hex_byte bs)"

definition tmp_path :: "string \<Rightarrow> 8 word list \<Rightarrow> string" where
  "tmp_path input_h5ad random_bytes = input_h5ad @ hex random_bytes @ ''.tmp.h5ad''"

definition normalization ::
  "('b list \<Rightarrow> 'b list) \<Rightarrow> 8 word list \<Rightarrow> string \<Rightarrow> 'b storage \<Rightarrow> py_error + 'b file_op list" where
  "normalization update random_bytes input_h5ad st =
     (case st input_h5ad of
        None \<Rightarrow> Inl (FileNotFoundError input_h5ad)
      | Some adata \<Rightarrow>
          Inr [Read input_h5ad,
               Write (tmp_path input_h5ad random_bytes) (update adata),
               Rename (tmp_path input_h5ad random_bytes) input_h5ad])"

section \<open>The Snakefile\<close>

text \<open>
  \<open>workflow/Snakefile\<close> and the options of \<open>config/config.yaml\<close> it reads. A grid option
  is a scalar or a sequence. \<open>samples_in_directory\<close> is the top-level key that line 14
  of the Snakefile tests; it is \<open>None\<close> when the document has no such key, as is the
  case for the shipped \<open>config.yaml\<close>, which keeps its flag under \<open>data\<close>.
\<close>

datatype yaml = Scalar pyval | Seq "pyval list"

record config =
  conda_envs_use_existing_envs :: pyval
  conda_envs_envs_path :: string
  data_samples_in_directory :: pyval
  data_sample_sheet_path :: pyval
  samples_in_directory :: "pyval option"
  subset_use :: pyval
  dim_reduc_layer_to_use :: yaml
  dim_reduc_scale_data_before_pca :: yaml
  dim_reduc_genes_for_pca :: yaml
  dim_reduc_cc_method :: yaml
  dim_reduc_pca_n_components :: yaml
  dim_reduc_umap_n_neighbors :: yaml

definition config_yaml :: config where
  "config_yaml =
     \<lparr> conda_envs_use_existing_envs = PBool True,
       conda_envs_envs_path = ''~/work/miniconda/envs/'',
       data_samples_in_directory = PBool False,
       data_sample_sheet_path = PStr ''resources/sample_sheet.tsv'',
       samples_in_directory = None,
       subset_use = PBool True,
       dim_reduc_layer_to_use = Scalar (PStr ''log1p_norm_of_soupX_counts''),
       dim_reduc_scale_data_before_pca = Seq [PBool True, PBool False],
       dim_reduc_genes_for_pca =
         Seq [PStr ''all'', PStr ''globally_highly_variable'', PStr ''highly_variable_per_sample''],
       dim_reduc_cc_method =
         Seq [PStr ''None'', PStr ''regress_out'', PStr ''cc_genes_out'',
              PStr ''cc_difference_regressed_out''],
       dim_reduc_pca_n_components = Scalar (PInt 50),
       dim_reduc_umap_n_neighbors = Scalar (PInt 30) \<rparr>"

subsection \<open>Sample resolution (lines 12 to 18)\<close>

text \<open>
  A sample sheet is its rows in file order, each keyed by its index value.
  \<open>pd.read_csv\<close> and \<open>read_sample\<close> (of \<open>scripts/samples_auto\<close>) are arguments.
  When neither branch assigns \<open>samples\<close>, line 18 (\<open>wc = samples.index\<close>) raises
  \<open>NameError\<close>; a missing top-level key raises \<open>KeyError\<close> at line 14.
\<close>

type_synonym sample_sheet = "(string \<times> string list) list"

datatype resolution_path = Sheet_based | Directory_scan

record resolution =
  printed :: "string list"
  executed :: "resolution_path list"
  wc :: "py_error + string list"

definition resolve_samples ::
  "(pyval \<Rightarrow> string \<Rightarrow> py_error + sample_sheet) \<Rightarrow> (pyval \<Rightarrow> py_error + sample_sheet)
   \<Rightarrow> config \<Rightarrow> resolution" where
  "resolve_samples read_csv read_sample config =
     (if truthy (data_sample_sheet_path config)
      then \<lparr> printed = [], executed = [Sheet_based],
             wc = map_sum id (map fst) (read_csv (data_sample_sheet_path config) ''sample_name'') \<rparr>
      else case samples_in_directory config of
        None \<Rightarrow> \<lparr> printed = [], executed = [], wc = Inl (KeyError ''samples_in_directory'') \<rparr>
      | Some flag \<Rightarrow>
          if truthy flag
          then \<lparr> printed = [], executed = [Directory_scan],
                 wc = map_sum id (map fst) (read_sample (data_samples_in_directory config)) \<rparr>
          else \<lparr> printed = [''no samples detected''], executed = [],
                 wc = Inl (NameError ''samples'') \<rparr>)"

text \<open>
  \<open>pd.read_csv(path, index_col = ..., sep = '\t')\<close> on a plain sheet: the first
  non-blank line names the columns, every further non-blank line is a row, fields are
  separated by tabs, and the index is the named column. Quoting, missing-value
  markers and type inference of pandas are not modelled.
\<close>

fun split_on :: "char \<Rightarrow> string \<Rightarrow> string list" where
  "split_on sep [] = [[]]"
| "split_on sep (c # cs) =
     (if c = sep then [] # split_on sep cs
      else (case split_on sep cs of
              [] \<Rightarrow> [[c]]
            | t # ts \<Rightarrow> (c # t) # ts))"

fun position :: "'a \<Rightarrow> 'a list \<Rightarrow> nat" where
  "position x [] = 0"
| "position x (y # ys) = (if x = y then 0 else Suc (position x ys))"

definition tab :: char where "tab = CHR 0x09"

definition newline :: char where "newline = CHR 0x0A"

definition parse_tsv :: "string \<Rightarrow> string \<Rightarrow> py_error + sample_sheet" where
  "parse_tsv text index_col =
     (case filter (\<lambda>l. l \<noteq> []) (split_on newline text) of
        [] \<Rightarrow> Inl (ValueError ''No columns to parse from file'')
      | header # rows \<Rightarrow>
          (let cols = split_on tab header; i = position index_col cols in
           if index_col \<notin> set cols then Inl (ValueError ''Index sample_name invalid'')
           else if list_ex (\<lambda>r. length (split_on tab r) \<noteq> length cols) rows
           then Inl (ValueError ''Error tokenizing data'')
           else Inr (map (\<lambda>r. (split_on tab r ! i,
                                take i (split_on tab r) @ drop (Suc i) (split_on tab r))) rows)))"

definition read_csv :: "(string \<rightharpoonup> string) \<Rightarrow> pyval \<Rightarrow> string \<Rightarrow> py_error + sample_sheet" where
  "read_csv files path index_col =
     (case path of
        PStr p \<Rightarrow> (case files p of
                     None \<Rightarrow> Inl (FileNotFoundError p)
                   | Some text \<Rightarrow> parse_tsv text index_col)
      | _ \<Rightarrow> Inl (ValueError ''Invalid file path or buffer object type''))"

subsection \<open>The aggregate rule (lines 30 to 51)\<close>

definition filename :: "config \<Rightarrow> string" where
  "filename config = (if truthy (subset_use config) then ''subset'' else ''merged'')"

text \<open>
  Snakemake's \<open>expand(pattern, name = values, ...)\<close>: a value that is a string or not
  iterable stands for the one-element list of itself; the pattern is formatted, with
  \<open>str\<close>, once for every element of the product of the value lists, the first
  wildcard varying slowest.
\<close>

fun values_of :: "yaml \<Rightarrow> pyval list" where
  "values_of (Scalar v) = [v]"
| "values_of (Seq vs) = vs"

type_synonym grid_point = "pyval \<times> pyval \<times> pyval \<times> pyval \<times> pyval \<times> pyval"

definition grid :: "config \<Rightarrow> grid_point list" where
  "grid config =
     List.product (values_of (dim_reduc_layer_to_use config))
    (List.product (values_of (dim_reduc_scale_data_before_pca config))
    (List.product (values_of (dim_reduc_genes_for_pca config))
    (List.product (values_of (dim_reduc_cc_method config))
    (List.product (values_of (dim_reduc_pca_n_components config))
                  (values_of (dim_reduc_umap_n_neighbors config))))))"

fun checkpoint_path :: "string \<Rightarrow> grid_point \<Rightarrow> string" where
  "checkpoint_path fname (l, s, g, c, p, u) =
     ''results/analysis/'' @ fname @ ''/dim_reduc/checkpoints/'' @
     str_of l @ ''__'' @ str_of s @ ''__'' @ str_of g @ ''__'' @ str_of c @ ''__'' @
     str_of p @ ''__'' @ str_of u @ ''.done''"

definition expand_checkpoints :: "config \<Rightarrow> string list" where
  "expand_checkpoints config = map (checkpoint_path (filename config)) (grid config)"

definition rule_all_input :: "config \<Rightarrow> string list" where
  "rule_all_input config = ''results/preprocessing/subset.h5ad'' # expand_checkpoints config"

text \<open>
  A rendered value can be told apart from the \<open>__\<close> that follows it when it holds no
  two underscores in a row and does not end in one.
\<close>

fun separable :: "string \<Rightarrow> bool" where
  "separable [] = True"
| "separable [c] = (c \<noteq> CHR ''_'')"
| "separable (c # d # cs) = (\<not> (c = CHR ''_'' \<and> d = CHR ''_'') \<and> separable (d # cs))"

definition rendered :: "yaml \<Rightarrow> string list" where
  "rendered y = map str_of (values_of y)"

definition unambiguous :: "config \<Rightarrow> bool" where
  "unambiguous config =
     (list_all separable (rendered (dim_reduc_layer_to_use config)) \<and>
      list_all separable (rendered (dim_reduc_scale_data_before_pca config)) \<and>
      list_all separable (rendered (dim_reduc_genes_for_pca config)) \<and>
      list_all separable (rendered (dim_reduc_cc_method config)) \<and>
      list_all separable (rendered (dim_reduc_pca_n_components config)) \<and>
      distinct (rendered (dim_reduc_layer_to_use config)) \<and>
      distinct (rendered (dim_reduc_scale_data_before_pca config)) \<and>
      distinct (rendered (dim_reduc_genes_for_pca config)) \<and>
      distinct (rendered (dim_reduc_cc_method config)) \<and>
      distinct (rendered (dim_reduc_pca_n_components config)) \<and>
      distinct (rendered (dim_reduc_umap_n_neighbors config)))"

text \<open>The scenario: two cell-cycle methods, two component counts, the rest fixed.\<close>

definition scenario_config :: config where
  "scenario_config =
     config_yaml
       \<lparr> dim_reduc_scale_data_before_pca := Scalar (PBool True),
         dim_reduc_genes_for_pca := Scalar (PStr ''all''),
         dim_reduc_cc_method := Seq [PStr ''None'', PStr ''regress_out''],
         dim_reduc_pca_n_components := Seq [PInt 50, PInt 100] \<rparr>"

text \<open>A configuration whose values contain the separator.\<close>

definition colliding_config :: config where
  "colliding_config =
     config_yaml
       \<lparr> dim_reduc_layer_to_use := Seq [PStr ''norm'', PStr ''norm__True''],
         dim_reduc_scale_data_before_pca := Scalar (PBool True),
         dim_reduc_genes_for_pca := Seq [PStr ''all'', PStr ''True__all''],
         dim_reduc_cc_method := Scalar (PStr ''None'') \<rparr>"

section \<open>Reference mapping: feature augmentation\<close>

text \<open>
  \<open>workflow/notebooks/scarches.ipynb\<close>, the cells from \<open>missing_genes\<close> to the
  reordering of \<open>adata_to_map_augmented\<close>. A dataset is its observation names, its
  variable index (the gene ids), and the matrices \<open>X\<close> and \<open>layers["counts"]\<close>, each
  stored as one column per variable. The reference feature table enters through its
  index, \<open>reference_model_features.index\<close>.
\<close>

record 'v anndata =
  obs_names :: "string list"
  var_names :: "string list"
  X :: "'v list list"
  counts :: "'v list list"

definition n_obs :: "'v anndata \<Rightarrow> nat" where
  "n_obs adata = length (obs_names adata)"

text \<open>
  \<^verbatim>\<open>[gene_id for gene_id in reference_model_features.index
     if gene_id not in adata_to_map.var.index]\<close>
\<close>

definition missing_genes :: "string list \<Rightarrow> 'v anndata \<Rightarrow> string list" where
  "missing_genes reference adata_to_map =
     filter (\<lambda>gene_id. gene_id \<notin> set (var_names adata_to_map)) reference"

text \<open>
  The all-zero dataset for the missing genes; its \<open>counts\<close> layer is its \<open>X\<close>. Its
  \<open>var\<close> is \<open>reference_model_features.loc[missing_genes, :]\<close>, which has one row per
  missing gene only if no missing gene id is repeated; otherwise the constructor
  rejects the shape.
\<close>

definition missing_gene_adata :: "string list \<Rightarrow> ('v::zero) anndata \<Rightarrow> py_error + 'v anndata" where
  "missing_gene_adata reference adata =
     (let missing = missing_genes reference adata;
          zeros = replicate (length missing) (replicate (n_obs adata) 0)
      in if \<not> distinct missing
         then Inl (ValueError ''var must have as many rows as X has columns'')
         else Inr \<lparr> obs_names = obs_names adata, var_names = missing,
                    X = zeros, counts = zeros \<rparr>)"

text \<open>
  \<open>sc.concat([a, b], axis=1, join="outer", index_unique=None, merge="unique")\<close>
  for two datasets over the same observations (the second is built on the \<open>obs\<close> of
  the first): the variables of \<open>b\<close> follow those of \<open>a\<close>. Aligning the observations
  needs uniquely valued observation names; repeated names raise.
\<close>

definition concat_vars :: "'v anndata \<Rightarrow> 'v anndata \<Rightarrow> py_error + 'v anndata" where
  "concat_vars a b =
     (if \<not> distinct (obs_names a) \<or> \<not> distinct (obs_names b) then Inl InvalidIndexError
      else Inr \<lparr> obs_names = obs_names a, var_names = var_names a @ var_names b,
                 X = X a @ X b, counts = counts a @ counts b \<rparr>)"

text \<open>
  \<open>adata[:, labels].copy()\<close>: the columns named by \<open>labels\<close>, in that order. Label
  lookup needs a uniquely valued variable index and every label present.
\<close>

definition select_vars :: "string list \<Rightarrow> 'v anndata \<Rightarrow> py_error + 'v anndata" where
  "select_vars labels a =
     (if \<not> distinct (var_names a) then Inl InvalidIndexError
      else if list_ex (\<lambda>l. l \<notin> set (var_names a)) labels
      then Inl (KeyError ''not found in var_names'')
      else Inr \<lparr> obs_names = obs_names a, var_names = labels,
                 X = map (\<lambda>l. X a ! position l (var_names a)) labels,
                 counts = map (\<lambda>l. counts a ! position l (var_names a)) labels \<rparr>)"

definition augment :: "string list \<Rightarrow> ('v::zero) anndata \<Rightarrow> py_error + 'v anndata" where
  "augment reference adata_to_map =
     (case missing_gene_adata reference adata_to_map of
        Inl e \<Rightarrow> Inl e
      | Inr missing \<Rightarrow>
          (case concat_vars adata_to_map missing of
             Inl e \<Rightarrow> Inl e
           | Inr adata_to_map_augmented \<Rightarrow> select_vars reference adata_to_map_augmented))"

text \<open>A query with two cells that has \<open>g1\<close> and \<open>g3\<close> but not \<open>g2\<close>.\<close>

definition example_query :: "nat anndata" where
  "example_query =
     \<lparr> obs_names = [''c1'', ''c2''], var_names = [''g3'', ''g1'', ''gx''],
       X = [[1, 2], [3, 4], [5, 6]], counts = [[1, 2], [3, 4], [5, 6]] \<rparr>"

section \<open>Merging the samples\<close>

text \<open>
  The merge notebook: sample ids, treatments and weeks are computed from the globbed
  paths, zipped into a dictionary, and attached to the cells of each file as it is
  loaded; the files are then concatenated with the dictionary key as \<open>sample\<close>.
\<close>

text \<open>The character class \<open>[a-zA-Z0-9_]\<close>.\<close>

definition word_char :: "char \<Rightarrow> bool" where
  "word_char c =
     (let n = (of_char c :: nat)
      in (97 \<le> n \<and> n \<le> 122) \<or> (65 \<le> n \<and> n \<le> 90) \<or> (48 \<le> n \<and> n \<le> 57) \<or> c = CHR ''_'')"

text \<open>\<open>re.search("CE[a-zA-Z0-9_]*", path)\<close>: the leftmost \<open>CE\<close> and the longest run after it.\<close>

fun re_search_CE :: "string \<Rightarrow> string option" where
  "re_search_CE (c # d # cs) =
     (if c = CHR ''C'' \<and> d = CHR ''E'' then Some (c # d # takeWhile word_char cs)
      else re_search_CE (d # cs))"
| "re_search_CE cs = None"

text \<open>\<open>re.sub(pat, "", name)\<close> for a literal pattern: every occurrence is removed, left to right.\<close>

function re_sub_remove :: "string \<Rightarrow> string \<Rightarrow> string" where
  "re_sub_remove pat [] = []"
| "re_sub_remove pat (c # cs) =
     (if pat \<noteq> [] \<and> prefix pat (c # cs)
      then re_sub_remove pat (drop (length pat) (c # cs))
      else c # re_sub_remove pat cs)"
  by pat_completeness auto
termination
  by (relation "measure (\<lambda>(pat, s). length s)") auto

text \<open>
  \<^verbatim>\<open>sample_ids = [match.group() for path in sample_paths if (match := re.search(...))]\<close>
  followed by the two substitutions. Paths without a match contribute no id.
\<close>

definition sample_ids :: "string list \<Rightarrow> string list" where
  "sample_ids sample_paths =
     map (re_sub_remove ''5FU_'')
       (map (re_sub_remove ''CE_SC_'') (List.map_filter re_search_CE sample_paths))"

text \<open>\<open>name.split("_")[0]\<close>, with \<open>C\<close> renamed, and \<open>name.split("_")[1]\<close>, which may not exist.\<close>

definition sample_treatment :: "string \<Rightarrow> string" where
  "sample_treatment name =
     (case split_on (CHR ''_'') name of
        [] \<Rightarrow> []
      | t # ts \<Rightarrow> if t = ''C'' then ''Control'' else t)"

definition sample_week :: "string \<Rightarrow> py_error + string" where
  "sample_week name =
     (case split_on (CHR ''_'') name of
        t # w # ts \<Rightarrow> Inr w
      | _ \<Rightarrow> Inl IndexError)"

fun collect :: "('e + 'a) list \<Rightarrow> 'e + 'a list" where
  "collect [] = Inr []"
| "collect (Inl e # xs) = Inl e"
| "collect (Inr x # xs) = (case collect xs of Inl e \<Rightarrow> Inl e | Inr ys \<Rightarrow> Inr (x # ys))"

text \<open>
  \<open>dict(zip(keys, values))\<close>: a repeated key keeps its first position and takes the
  last value.
\<close>

fun dict_set :: "('k \<times> 'v) list \<Rightarrow> 'k \<Rightarrow> 'v \<Rightarrow> ('k \<times> 'v) list" where
  "dict_set [] k v = [(k, v)]"
| "dict_set ((k', v') # d) k v = (if k' = k then (k, v) # d else (k', v') # dict_set d k v)"

definition dict_of :: "('k \<times> 'v) list \<Rightarrow> ('k \<times> 'v) list" where
  "dict_of kvs = foldl (\<lambda>d (k, v). dict_set d k v) [] kvs"

text \<open>A merged cell: the cell as loaded, and the three columns the merge step sets.\<close>

record 'c merged_cell =
  cell :: 'c
  treatment :: string
  week :: string
  sample :: string

text \<open>
  The loop over \<open>samples.items()\<close> and \<open>ad.concat(adatas, label="sample")\<close>. The files
  come from a glob, so \<open>read_h5ad\<close> is a total function from paths to the cells of
  the file. With no sample at all, \<open>ad.concat\<close> has nothing to concatenate and raises.
\<close>

definition load_sample ::
  "(string \<Rightarrow> 'c list) \<Rightarrow> string \<times> string \<times> string \<times> string \<Rightarrow> 'c merged_cell list" where
  "load_sample read_h5ad entry =
     (case entry of (sample_id, sample_path, t, w) \<Rightarrow>
        map (\<lambda>c. \<lparr> cell = c, treatment = t, week = w, sample = sample_id \<rparr>)
          (read_h5ad sample_path))"

definition merge_samples :: "(string \<Rightarrow> 'c list) \<Rightarrow> string list \<Rightarrow> py_error + 'c merged_cell list" where
  "merge_samples read_h5ad sample_paths =
     (let ids = sample_ids sample_paths;
          sample_treatments = map sample_treatment ids
      in case collect (map sample_week ids) of
           Inl e \<Rightarrow> Inl e
         | Inr sample_weeks \<Rightarrow>
             (let samples =
                    dict_of (zip ids (zip sample_paths (zip sample_treatments sample_weeks)))
              in if samples = [] then Inl (ValueError ''No objects to concatenate'')
                 else Inr (concat (map (load_sample read_h5ad) samples))))"

text \<open>
  For one path on its own: the identifier \<open>match.group()\<close> (empty when nothing
  matches), and the sample id the two substitutions make of it.
\<close>

definition identifier_of :: "string \<Rightarrow> string" where
  "identifier_of path = (case re_search_CE path of None \<Rightarrow> [] | Some m \<Rightarrow> m)"

definition id_of_path :: "string \<Rightarrow> string" where
  "id_of_path path =
     (case re_search_CE path of
        None \<Rightarrow> []
      | Some m \<Rightarrow> re_sub_remove ''5FU_'' (re_sub_remove ''CE_SC_'' m))"

definition tokens :: "string \<Rightarrow> string list" where
  "tokens name = split_on (CHR ''_'') name"

text \<open>
  The derivation in the words of the specification: the prefixes \<open>CE_SC_\<close> and
  \<open>5FU_\<close> are stripped from the front of the identifier, and the first two tokens of
  what is left are read off.
\<close>

definition strip_prefix :: "string \<Rightarrow> string \<Rightarrow> string" where
  "strip_prefix pre s = (if prefix pre s then drop (length pre) s else s)"

definition spec_id :: "string \<Rightarrow> string" where
  "spec_id identifier = strip_prefix ''5FU_'' (strip_prefix ''CE_SC_'' identifier)"

definition spec_tokens :: "string \<Rightarrow> string list" where
  "spec_tokens identifier = tokens (spec_id identifier)"

text \<open>
  The identifiers in which \<open>CE_SC_\<close> and \<open>5FU_\<close> occur as leading prefixes only, so that
  the two substitutions remove exactly the prefixes.
\<close>

definition affixes_leading_only :: "string \<Rightarrow> bool" where
  "affixes_leading_only identifier =
     (re_sub_remove ''5FU_'' (re_sub_remove ''CE_SC_'' identifier) = spec_id identifier)"

text \<open>A store in which every file holds one cell, named after the file.\<close>

definition one_cell_per_file :: "string \<Rightarrow> string list" where
  "one_cell_per_file path = [path]"

section \<open>Properties\<close>

subsection \<open>Gene selection ignores \<open>genes_for_pca\<close>\<close>

text \<open>
  C8. Everything a run does up to and including the gene-selection cell is the same for
  every value of \<open>genes_for_pca\<close>: the only highly-variable-gene call issued is the global
  one (no \<open>batch_key\<close>), and the per-sample call is never issued.
\<close>

theorem gene_selection_ignores_genes_for_pca:
  "until_gene_selection (p\<lparr>genes_for_pca := g1\<rparr>) = until_gene_selection (p\<lparr>genes_for_pca := g2\<rparr>)
   \<and> filter is_highly_variable_call (dim_reduc_run (p\<lparr>genes_for_pca := g1\<rparr>))
       = [Highly_variable_genes None]
   \<and> Highly_variable_genes (Some ''sample'') \<notin> set (dim_reduc_run (p\<lparr>genes_for_pca := g1\<rparr>))"
  by (simp add: until_gene_selection_def dim_reduc_run_def cell_read_def cell_set_X_def
      cell_cell_cycle_def cell_to_R_def cell_select_genes_def cell_pca_neighbors_umap_def)


subsection \<open>\<open>umap_n_neighbors\<close> reaches the neighbour graph as \<open>n_pcs\<close>\<close>




subsection \<open>Where the stage notebooks read and write\<close>

lemma last_write_states:
  "last (op_states (Write p a) st) = st(p \<mapsto> a)"
  by (simp add: last_map del: upt_Suc)

lemma set_write_states:
  "set (op_states (Write p a) st) = (\<lambda>k. st(p \<mapsto> take k a)) ` {0..length a}"
  by (auto simp del: upt_Suc simp add: atLeastLessThanSuc_atLeastAtMost)

lemma write_states_nonempty: "op_states (Write p a) st \<noteq> []"
  by (simp del: upt_Suc)

lemma final_storage_in_place:
  "final_storage [Read p, Write p a] st = st(p \<mapsto> a)"
  unfolding final_storage_def
  by (simp add: last_write_states write_states_nonempty del: op_states.simps(2) upt_Suc)

lemma final_storage_via_tmp:
  "final_storage [Read p, Write t a, Rename t p] st = (st(t := None))(p \<mapsto> a)"
  unfolding final_storage_def
  by (simp add: last_write_states write_states_nonempty del: op_states.simps(2) upt_Suc)

lemma of_char_hex_digit:
  "d < 16 \<Longrightarrow> of_char (hex_digit d) = (if d < 10 then 48 + d else 87 + d)"
  by (simp add: hex_digit_def)

lemma hex_digit_inj: "d < 16 \<Longrightarrow> e < 16 \<Longrightarrow> hex_digit d = hex_digit e \<Longrightarrow> d = e"
proof -
  assume d: "d < 16" and e: "e < 16" and eq: "hex_digit d = hex_digit e"
  have "(of_char (hex_digit d) :: nat) = of_char (hex_digit e)" using eq by simp
  then show "d = e" using d e by (simp add: of_char_hex_digit split: if_splits)
qed

lemma hex_byte_inj: "hex_byte b = hex_byte c \<Longrightarrow> b = c"
proof -
  assume eq: "hex_byte b = hex_byte c"
  have lt: "unat b < 256" "unat c < 256" using unsigned_less[of b, where ?'a=nat] unsigned_less[of c, where ?'a=nat] by simp_all
  have hi: "unat b div 16 = unat c div 16"
    using eq lt by (intro hex_digit_inj) (simp_all add: hex_byte_def)
  have lo: "unat b mod 16 = unat c mod 16"
    using eq by (intro hex_digit_inj) (simp_all add: hex_byte_def)
  have "unat b = unat c" using hi lo by (metis div_mult_mod_eq)
  then show "b = c" by (rule word_unat_eq_iff[THEN iffD2])
qed

lemma hex_inj: "hex bs = hex cs \<Longrightarrow> bs = cs"
proof (induction bs arbitrary: cs)
  case Nil
  then show ?case by (cases cs) (simp_all add: hex_def hex_byte_def)
next
  case (Cons b bs)
  then show ?case
  proof (cases cs)
    case Nil
    with Cons.prems show ?thesis by (simp add: hex_def hex_byte_def)
  next
    case (Cons c cs')
    with Cons.prems have "hex_byte b = hex_byte c" "hex bs = hex cs'"
      by (simp_all add: hex_def hex_byte_def)
    with Cons.IH Cons show ?thesis by (simp add: hex_byte_inj)
  qed
qed

lemma length_hex: "length (hex bs) = 2 * length bs"
  by (induction bs) (simp_all add: hex_def hex_byte_def)

lemma tmp_path_inj:
  "length r = length r' \<Longrightarrow> (tmp_path i r = tmp_path i' r') = (i = i' \<and> r = r')"
proof
  assume len: "length r = length r'" and eq: "tmp_path i r = tmp_path i' r'"
  have "length (tmp_path i r) = length (tmp_path i' r')" using eq by simp
  then have "length i = length i'" using len by (simp add: tmp_path_def length_hex)
  then have "i = i'" "hex r = hex r'" using eq by (simp_all add: tmp_path_def)
  then show "i = i' \<and> r = r'" by (simp add: hex_inj)
qed simp


text \<open>
  C6, as the notebooks have it. Each stage reads its input path and nothing else, and
  afterwards the input path holds the updated artifact. Dimensionality reduction and
  clustering write to the input path itself. Normalization writes to the temporary
  path and renames it onto the input path: afterwards the temporary name holds nothing
  and every other path is as it was.
\<close>

theorem stages_save_to_input_path:
  assumes "st input_h5ad = Some adata"
  shows "dimensionality_reduction f input_h5ad st
           = Inr [Read input_h5ad, Write input_h5ad (f adata)]
       \<and> clustering f input_h5ad st = Inr [Read input_h5ad, Write input_h5ad (f adata)]
       \<and> final_storage [Read input_h5ad, Write input_h5ad (f adata)] st
           = st(input_h5ad \<mapsto> f adata)
       \<and> (\<exists>ops. normalization f r input_h5ad st = Inr ops
             \<and> read_paths ops = [input_h5ad]
             \<and> written_paths ops = [tmp_path input_h5ad r]
             \<and> final_storage ops st
                 = (st(tmp_path input_h5ad r := None))(input_h5ad \<mapsto> f adata))"
  using assms
  by (simp add: dimensionality_reduction_def clustering_def normalization_def
      final_storage_in_place final_storage_via_tmp)

lemma tmp_path_example:
  "tmp_path ''s.h5ad'' (replicate 10 0) = ''s.h5ad00000000000000000000.tmp.h5ad''"
  by code_simp

theorem stages_save_to_input_path_witness:
  "dimensionality_reduction rev ''s.h5ad'' [''s.h5ad'' \<mapsto> [1, 2 :: nat]]
     = Inr [Read ''s.h5ad'', Write ''s.h5ad'' [2, 1]]
   \<and> clustering rev ''s.h5ad'' [''s.h5ad'' \<mapsto> [1, 2 :: nat]]
     = Inr [Read ''s.h5ad'', Write ''s.h5ad'' [2, 1]]
   \<and> final_storage [Read ''s.h5ad'', Write ''s.h5ad'' [2, 1]] [''s.h5ad'' \<mapsto> [1, 2 :: nat]]
     = [''s.h5ad'' \<mapsto> [2, 1]]
   \<and> (\<exists>ops. normalization rev (replicate 10 0) ''s.h5ad'' [''s.h5ad'' \<mapsto> [1, 2 :: nat]] = Inr ops
         \<and> read_paths ops = [''s.h5ad'']
         \<and> written_paths ops = [''s.h5ad00000000000000000000.tmp.h5ad''])"
  using stages_save_to_input_path
    [of "[''s.h5ad'' \<mapsto> [1, 2 :: nat]]" "''s.h5ad''" "[1, 2]" rev "replicate 10 0"]
  by (auto simp add: tmp_path_example)

text \<open>
  C6 as stated fails for normalization: the path it hands to \<open>write_h5ad\<close> is the
  temporary one, not the input path.
\<close>

theorem normalization_writes_temporary_path:
  "map_sum id written_paths
     (normalization id (replicate 10 0) ''s.h5ad'' [''s.h5ad'' \<mapsto> [1 :: nat]])
   = Inr [''s.h5ad00000000000000000000.tmp.h5ad'']"
  by (simp add: normalization_def tmp_path_example)

subsection \<open>The temporary file of normalization\<close>

text \<open>An in-place save does pass through states where the input path holds a prefix.\<close>

lemma in_place_save_exposes_prefix:
  "[''s.h5ad'' \<mapsto> [7 :: nat]]
     \<in> set (run_states [Read ''s.h5ad'', Write ''s.h5ad'' [7, 8]] [''s.h5ad'' \<mapsto> [1, 2]])"
  by (simp add: numeral_eq_Suc) 

lemma tmp_path_neq_input: "tmp_path p r \<noteq> p"
  by (simp add: tmp_path_def)

text \<open>
  C10. Normalization saves by writing \<open>input_file + hex + ".tmp.h5ad"\<close> and renaming that
  file onto the input path. In every storage state the save passes through, the input
  path holds the complete old artifact, and in the last one the complete new artifact.
  Two saves whose ten random bytes differ use different temporary names.
\<close>

theorem normalization_save_is_atomic:
  assumes "st input_h5ad = Some adata"
  shows "\<exists>ops. normalization f r input_h5ad st = Inr ops
          \<and> ops = [Read input_h5ad,
                    Write (input_h5ad @ hex r @ ''.tmp.h5ad'') (f adata),
                    Rename (input_h5ad @ hex r @ ''.tmp.h5ad'') input_h5ad]
          \<and> (\<forall>s \<in> set (butlast (run_states ops st)). s input_h5ad = Some adata)
          \<and> last (run_states ops st) input_h5ad = Some (f adata)
          \<and> (length r = 10 \<and> length r' = 10 \<and> r \<noteq> r'
               \<longrightarrow> tmp_path input_h5ad r \<noteq> tmp_path input_h5ad r')"
proof -
  let ?t = "tmp_path input_h5ad r"
  let ?ops = "[Read input_h5ad, Write ?t (f adata), Rename ?t input_h5ad]"
  have run: "normalization f r input_h5ad st = Inr ?ops"
    using assms by (simp add: normalization_def)
  have shape: "run_states ?ops st
                 = (st # op_states (Write ?t (f adata)) st)
                   @ [(st(?t := None))(input_h5ad \<mapsto> f adata)]"
    by (simp add: last_write_states del: op_states.simps(2) upt_Suc)
  have before: "\<forall>s \<in> set (st # op_states (Write ?t (f adata)) st). s input_h5ad = Some adata"
    using assms tmp_path_neq_input [of input_h5ad r]
    by (auto simp add: set_write_states simp del: op_states.simps(2) upt_Suc)
  have names: "length r = 10 \<and> length r' = 10 \<and> r \<noteq> r' \<longrightarrow> ?t \<noteq> tmp_path input_h5ad r'"
    by (simp add: tmp_path_inj)
  show ?thesis
  proof (intro exI [of _ ?ops] conjI)
    show "normalization f r input_h5ad st = Inr ?ops"
      by (rule run)
    show "?ops = [Read input_h5ad,
                  Write (input_h5ad @ hex r @ ''.tmp.h5ad'') (f adata),
                  Rename (input_h5ad @ hex r @ ''.tmp.h5ad'') input_h5ad]"
      by (simp add: tmp_path_def)
    show "\<forall>s \<in> set (butlast (run_states ?ops st)). s input_h5ad = Some adata"
      unfolding shape using before by (simp del: op_states.simps(2) upt_Suc)
    show "last (run_states ?ops st) input_h5ad = Some (f adata)"
      unfolding shape by simp
    show "length r = 10 \<and> length r' = 10 \<and> r \<noteq> r' \<longrightarrow> ?t \<noteq> tmp_path input_h5ad r'"
      by (rule names)
  qed
qed

theorem normalization_save_is_atomic_witness:
  "\<exists>ops. normalization rev (replicate 10 0) ''s.h5ad'' [''s.h5ad'' \<mapsto> [1, 2 :: nat]] = Inr ops
     \<and> (\<forall>s \<in> set (butlast (run_states ops [''s.h5ad'' \<mapsto> [1, 2]])). s ''s.h5ad'' = Some [1, 2])
     \<and> last (run_states ops [''s.h5ad'' \<mapsto> [1, 2]]) ''s.h5ad'' = Some [2, 1]
     \<and> tmp_path ''s.h5ad'' (replicate 10 0) \<noteq> tmp_path ''s.h5ad'' (replicate 10 1)"
proof -
  have pre: "[''s.h5ad'' \<mapsto> [1, 2 :: nat]] ''s.h5ad'' = Some [1, 2]"
    by simp
  have rnd: "length (replicate 10 (0 :: 8 word)) = 10 \<and> length (replicate 10 (1 :: 8 word)) = 10
             \<and> replicate 10 (0 :: 8 word) \<noteq> replicate 10 1"
    by (simp add: numeral_eq_Suc)
  show ?thesis
    using normalization_save_is_atomic
      [of "[''s.h5ad'' \<mapsto> [1, 2 :: nat]]" "''s.h5ad''" "[1, 2]" rev "replicate 10 0"
          "replicate 10 1"] pre rnd
    by auto
qed

subsection \<open>One checkpoint path per grid point\<close>

lemma separable_tl: "separable (c # cs) \<Longrightarrow> separable cs"
  by (cases cs) auto

lemma separator_first:
  "separable a \<Longrightarrow> ''__'' @ r = a @ ''__'' @ r' \<Longrightarrow> a = []"
proof (cases a rule: separable.cases)
  case 1 then show ?thesis by simp
next
  case (2 c)
  assume "separable a" "''__'' @ r = a @ ''__'' @ r'"
  with 2 show ?thesis by simp
next
  case (3 c d cs)
  assume "separable a" "''__'' @ r = a @ ''__'' @ r'"
  with 3 show ?thesis by auto
qed

lemma separable_split:
  "separable a \<Longrightarrow> separable a' \<Longrightarrow> a @ ''__'' @ r = a' @ ''__'' @ r' \<Longrightarrow> a = a' \<and> r = r'"
proof (induction a arbitrary: a')
  case Nil
  then have "a' = []" using separator_first [of a' r r'] by simp
  with Nil show ?case by simp
next
  case (Cons c cs)
  show ?case
  proof (cases a')
    case Nil
    with Cons.prems have "c # cs = []"
      using separator_first [of "c # cs" r' r] by simp
    then show ?thesis by simp
  next
    case (Cons c' cs')
    with Cons.prems have "c = c'" "cs @ ''__'' @ r = cs' @ ''__'' @ r'"
      by simp_all
    moreover have "separable cs" "separable cs'"
      using Cons.prems Cons separable_tl by blast+
    ultimately show ?thesis using Cons.IH [of cs'] Cons by simp
  qed
qed

lemma checkpoint_path_inj:
  assumes "separable (str_of l)" "separable (str_of s)" "separable (str_of g)"
    "separable (str_of c)" "separable (str_of p)"
    and "separable (str_of l')" "separable (str_of s')" "separable (str_of g')"
    "separable (str_of c')" "separable (str_of p')"
    and eq: "checkpoint_path fname (l, s, g, c, p, u) = checkpoint_path fname (l', s', g', c', p', u')"
  shows "str_of l = str_of l' \<and> str_of s = str_of s' \<and> str_of g = str_of g' \<and>
         str_of c = str_of c' \<and> str_of p = str_of p' \<and> str_of u = str_of u'"
proof -
  let ?r4 = "\<lambda>p u. str_of p @ ''__'' @ str_of u @ ''.done''"
  let ?r3 = "\<lambda>c p u. str_of c @ ''__'' @ ?r4 p u"
  let ?r2 = "\<lambda>g c p u. str_of g @ ''__'' @ ?r3 c p u"
  let ?r1 = "\<lambda>s g c p u. str_of s @ ''__'' @ ?r2 g c p u"
  from eq have "str_of l @ ''__'' @ ?r1 s g c p u = str_of l' @ ''__'' @ ?r1 s' g' c' p' u'"
    by simp
  with assms(1,6) have 1: "str_of l = str_of l'" and "?r1 s g c p u = ?r1 s' g' c' p' u'"
    using separable_split by blast+
  with assms(2,7) have 2: "str_of s = str_of s'" and "?r2 g c p u = ?r2 g' c' p' u'"
    using separable_split by blast+
  with assms(3,8) have 3: "str_of g = str_of g'" and "?r3 c p u = ?r3 c' p' u'"
    using separable_split by blast+
  with assms(4,9) have 4: "str_of c = str_of c'" and "?r4 p u = ?r4 p' u'"
    using separable_split by blast+
  with assms(5,10) have 5: "str_of p = str_of p'" and "str_of u @ ''.done'' = str_of u' @ ''.done''"
    using separable_split by blast+
  then have "str_of u = str_of u'" by simp
  with 1 2 3 4 5 show ?thesis by simp
qed

lemma rendered_inj:
  "distinct (rendered y) \<Longrightarrow> v \<in> set (values_of y) \<Longrightarrow> v' \<in> set (values_of y)
   \<Longrightarrow> str_of v = str_of v' \<Longrightarrow> v = v'"
  unfolding rendered_def by (auto simp add: distinct_map dest: inj_onD)

lemma rendered_separable:
  "list_all separable (rendered y) \<Longrightarrow> v \<in> set (values_of y) \<Longrightarrow> separable (str_of v)"
  unfolding rendered_def by (simp add: list_all_iff)

lemma distinct_values: "distinct (rendered y) \<Longrightarrow> distinct (values_of y)"
  unfolding rendered_def by (simp add: distinct_map)

lemma distinct_grid: "unambiguous config \<Longrightarrow> distinct (grid config)"
  unfolding unambiguous_def grid_def
  by (intro distinct_product distinct_values) simp_all

lemma grid_inj:
  assumes "unambiguous config" "t \<in> set (grid config)" "t' \<in> set (grid config)"
    and "checkpoint_path fname t = checkpoint_path fname t'"
  shows "t = t'"
proof -
  obtain l s g c p u where t: "t = (l, s, g, c, p, u)" by (cases t)
  obtain l' s' g' c' p' u' where t': "t' = (l', s', g', c', p', u')" by (cases t')
  have mem: "l \<in> set (values_of (dim_reduc_layer_to_use config))"
      "s \<in> set (values_of (dim_reduc_scale_data_before_pca config))"
      "g \<in> set (values_of (dim_reduc_genes_for_pca config))"
      "c \<in> set (values_of (dim_reduc_cc_method config))"
      "p \<in> set (values_of (dim_reduc_pca_n_components config))"
      "u \<in> set (values_of (dim_reduc_umap_n_neighbors config))"
    using assms(2) t by (simp_all add: grid_def)
  have mem': "l' \<in> set (values_of (dim_reduc_layer_to_use config))"
      "s' \<in> set (values_of (dim_reduc_scale_data_before_pca config))"
      "g' \<in> set (values_of (dim_reduc_genes_for_pca config))"
      "c' \<in> set (values_of (dim_reduc_cc_method config))"
      "p' \<in> set (values_of (dim_reduc_pca_n_components config))"
      "u' \<in> set (values_of (dim_reduc_umap_n_neighbors config))"
    using assms(3) t' by (simp_all add: grid_def)
  have sep: "separable (str_of l)" "separable (str_of s)" "separable (str_of g)"
      "separable (str_of c)" "separable (str_of p)"
      "separable (str_of l')" "separable (str_of s')" "separable (str_of g')"
      "separable (str_of c')" "separable (str_of p')"
    using assms(1) mem mem' unfolding unambiguous_def by (blast intro: rendered_separable)+
  have "str_of l = str_of l' \<and> str_of s = str_of s' \<and> str_of g = str_of g' \<and>
        str_of c = str_of c' \<and> str_of p = str_of p' \<and> str_of u = str_of u'"
    using checkpoint_path_inj [OF sep] assms(4) t t' by blast
  then have "l = l'" "s = s'" "g = g'" "c = c'" "p = p'" "u = u'"
    using assms(1) mem mem' unfolding unambiguous_def by (blast intro: rendered_inj)+
  with t t' show ?thesis by simp
qed

text \<open>
  C1, as the Snakefile has it. When the rendered values of every grid dimension are
  pairwise different and those of the first five dimensions are separable from the
  \<open>__\<close> that follows them, \<open>expand\<close> yields one path per grid point: the paths are
  pairwise different, there are as many as the product of the domain sizes, and each
  grid point's path occurs exactly once.
\<close>

theorem expand_one_path_per_grid_point:
  assumes "unambiguous config"
  shows "distinct (expand_checkpoints config)
       \<and> length (expand_checkpoints config)
           = length (values_of (dim_reduc_layer_to_use config))
             * length (values_of (dim_reduc_scale_data_before_pca config))
             * length (values_of (dim_reduc_genes_for_pca config))
             * length (values_of (dim_reduc_cc_method config))
             * length (values_of (dim_reduc_pca_n_components config))
             * length (values_of (dim_reduc_umap_n_neighbors config))
       \<and> (\<forall>t \<in> set (grid config).
             length (filter (\<lambda>q. q = checkpoint_path (filename config) t)
                       (expand_checkpoints config)) = 1)
       \<and> (\<forall>t \<in> set (grid config). \<forall>t' \<in> set (grid config).
             checkpoint_path (filename config) t = checkpoint_path (filename config) t'
             \<longrightarrow> t = t')"
proof -
  have inj: "inj_on (checkpoint_path (filename config)) (set (grid config))"
    unfolding inj_on_def using grid_inj [OF assms] by blast
  have d: "distinct (expand_checkpoints config)"
    unfolding expand_checkpoints_def using distinct_grid [OF assms] inj
    by (simp add: distinct_map)
  have len: "length (expand_checkpoints config)
           = length (values_of (dim_reduc_layer_to_use config))
             * length (values_of (dim_reduc_scale_data_before_pca config))
             * length (values_of (dim_reduc_genes_for_pca config))
             * length (values_of (dim_reduc_cc_method config))
             * length (values_of (dim_reduc_pca_n_components config))
             * length (values_of (dim_reduc_umap_n_neighbors config))"
    by (simp add: expand_checkpoints_def grid_def mult.assoc)
  have one: "length (filter (\<lambda>q. q = checkpoint_path (filename config) t)
                       (expand_checkpoints config)) = 1"
    if "t \<in> set (grid config)" for t
  proof -
    have "checkpoint_path (filename config) t \<in> set (expand_checkpoints config)"
      using that by (simp add: expand_checkpoints_def)
    then show ?thesis
      using d by (simp add: distinct_length_filter)
  qed
  have apart: "t = t'"
    if "t \<in> set (grid config)" "t' \<in> set (grid config)"
      "checkpoint_path (filename config) t = checkpoint_path (filename config) t'" for t t'
    using assms that by (rule grid_inj)
  show ?thesis using d len one apart by blast
qed

text \<open>The scenario of C1: two cell-cycle methods and two component counts give four paths.\<close>

theorem expand_scenario_four_instances:
  "distinct (expand_checkpoints scenario_config) \<and> length (expand_checkpoints scenario_config) = 4"
proof -
  have "unambiguous scenario_config" by code_simp
  from expand_one_path_per_grid_point [OF this]
  show ?thesis by (simp add: scenario_config_def config_yaml_def)
qed

text \<open>
  C1 as stated fails when values contain the separator: two different grid points of
  \<open>colliding_config\<close> are formatted to the same path.
\<close>

theorem expand_collision:
  "(PStr ''norm__True'', PBool True, PStr ''all'', PStr ''None'', PInt 50, PInt 30)
     \<in> set (grid colliding_config)
   \<and> (PStr ''norm'', PBool True, PStr ''True__all'', PStr ''None'', PInt 50, PInt 30)
     \<in> set (grid colliding_config)
   \<and> checkpoint_path (filename colliding_config)
       (PStr ''norm__True'', PBool True, PStr ''all'', PStr ''None'', PInt 50, PInt 30)
     = checkpoint_path (filename colliding_config)
       (PStr ''norm'', PBool True, PStr ''True__all'', PStr ''None'', PInt 50, PInt 30)
   \<and> \<not> distinct (expand_checkpoints colliding_config)"
  by code_simp


subsection \<open>Sample resolution\<close>

lemma resolve_samples_sheet:
  "truthy (data_sample_sheet_path config) \<Longrightarrow>
   executed (resolve_samples rc rs config) = [Sheet_based]"
  by (simp add: resolve_samples_def)

lemma resolve_samples_directory:
  "\<not> truthy (data_sample_sheet_path config) \<Longrightarrow> samples_in_directory config = Some flag \<Longrightarrow>
   truthy flag \<Longrightarrow> executed (resolve_samples rc rs config) = [Directory_scan]"
  by (simp add: resolve_samples_def)

lemma resolve_samples_neither:
  "\<not> truthy (data_sample_sheet_path config) \<Longrightarrow> samples_in_directory config = Some flag \<Longrightarrow>
   \<not> truthy flag \<Longrightarrow>
   resolve_samples rc rs config
     = \<lparr> printed = [''no samples detected''], executed = [], wc = Inl (NameError ''samples'') \<rparr>"
  by (simp add: resolve_samples_def)

text \<open>
  C2 at the shipped layout of \<open>config.yaml\<close>, where the directory flag lives under
  \<open>data\<close> and there is no top-level \<open>samples_in_directory\<close>: with the sheet path
  emptied, the test of line 14 raises \<open>KeyError\<close> whether the flag is set or not.
  Neither the directory scan runs nor is \<open>no samples detected\<close> printed.
\<close>

theorem resolve_samples_shipped_layout:
  "resolve_samples rc rs
     (config_yaml \<lparr> data_sample_sheet_path := PStr [], data_samples_in_directory := PBool True \<rparr>)
     = \<lparr> printed = [], executed = [], wc = Inl (KeyError ''samples_in_directory'') \<rparr>
   \<and> resolve_samples rc rs (config_yaml \<lparr> data_sample_sheet_path := PStr [] \<rparr>)
     = \<lparr> printed = [], executed = [], wc = Inl (KeyError ''samples_in_directory'') \<rparr>"
  by (simp add: resolve_samples_def config_yaml_def)

text \<open>
  C5. With a sheet path configured and the sheet holding the header and the rows
  \<open>(A, path_A)\<close>, \<open>(B, path_B)\<close>, the sheet branch runs and the wildcard values are
  \<open>A\<close>, \<open>B\<close> in that order.
\<close>

theorem sample_sheet_two_rows:
  assumes "data_sample_sheet_path config = PStr p" and "p \<noteq> []"
    and "files p = Some (''sample_name'' @ [tab] @ ''path'' @ [newline]
                        @ ''A'' @ [tab] @ ''path_A'' @ [newline]
                        @ ''B'' @ [tab] @ ''path_B'' @ [newline])"
  shows "resolve_samples (read_csv files) rs config
           = \<lparr> printed = [], executed = [Sheet_based], wc = Inr [''A'', ''B''] \<rparr>"
  using assms
  by (simp add: resolve_samples_def read_csv_def parse_tsv_def tab_def newline_def)

theorem sample_sheet_two_rows_witness:
  "resolve_samples
     (read_csv [''resources/sample_sheet.tsv'' \<mapsto>
                  ''sample_name'' @ [tab] @ ''path'' @ [newline]
                  @ ''A'' @ [tab] @ ''path_A'' @ [newline]
                  @ ''B'' @ [tab] @ ''path_B'' @ [newline]])
     (\<lambda>d. Inr []) config_yaml
   = \<lparr> printed = [], executed = [Sheet_based], wc = Inr [''A'', ''B''] \<rparr>"
  using sample_sheet_two_rows
    [of config_yaml "''resources/sample_sheet.tsv''"
        "[''resources/sample_sheet.tsv'' \<mapsto>
                  ''sample_name'' @ [tab] @ ''path'' @ [newline]
                  @ ''A'' @ [tab] @ ''path_A'' @ [newline]
                  @ ''B'' @ [tab] @ ''path_B'' @ [newline]]" "\<lambda>d. Inr []"]
  by (simp add: config_yaml_def)

subsection \<open>Feature augmentation\<close>

lemma position_less: "x \<in> set xs \<Longrightarrow> position x xs < length xs"
  by (induction xs) auto

lemma nth_position: "x \<in> set xs \<Longrightarrow> xs ! position x xs = x"
  by (induction xs) auto

lemma position_append:
  "position x (xs @ ys) = (if x \<in> set xs then position x xs else length xs + position x ys)"
  by (induction xs) auto

lemma position_nth: "distinct xs \<Longrightarrow> j < length xs \<Longrightarrow> position (xs ! j) xs = j"
proof (induction xs arbitrary: j)
  case Nil
  then show ?case by simp
next
  case (Cons x xs)
  then show ?case by (cases j) auto
qed

lemma missing_genes_disjoint: "set (missing_genes reference q) \<inter> set (var_names q) = {}"
  by (auto simp add: missing_genes_def)

lemma missing_genes_set: "set (missing_genes reference q) = set reference - set (var_names q)"
  by (auto simp add: missing_genes_def)

lemma augment_success:
  assumes "distinct (var_names q)" and "distinct (missing_genes reference q)"
    and "distinct (obs_names q)"
  shows "augment reference q =
     Inr \<lparr> obs_names = obs_names q, var_names = reference,
           X = map (\<lambda>l. (X q @ replicate (length (missing_genes reference q)) (replicate (n_obs q) 0))
                          ! position l (var_names q @ missing_genes reference q)) reference,
           counts = map (\<lambda>l. (counts q @ replicate (length (missing_genes reference q)) (replicate (n_obs q) 0))
                          ! position l (var_names q @ missing_genes reference q)) reference \<rparr>"
proof -
  have d: "distinct (var_names q @ missing_genes reference q)"
    using assms missing_genes_disjoint [of reference q] by auto
  have all: "\<not> list_ex (\<lambda>l. l \<notin> set (var_names q @ missing_genes reference q)) reference"
    by (auto simp add: list_ex_iff missing_genes_set)
  show ?thesis
    using assms(2,3) d all
    by (simp add: augment_def missing_gene_adata_def select_vars_def concat_vars_def Let_def)
qed

text \<open>
  C3, as the notebook has it. Take a query whose gene ids and observation names are
  free of repetitions and whose matrices have one column per gene, and a reference
  whose ids missing from the query are free of repetitions.
  Then augmentation succeeds; the result has the reference's features in the
  reference's order (so \<open>N\<close> of them); the \<open>M\<close> missing ones, \<open>M\<close> being the number of
  reference ids absent from the query, have all-zero columns in \<open>X\<close> and in the counts
  layer; the others keep the query's columns.
\<close>

theorem feature_augmentation:
  assumes "distinct (var_names q)" and "distinct (missing_genes reference q)"
    and "distinct (obs_names q)"
    and "length (X q) = length (var_names q)" and "length (counts q) = length (var_names q)"
  shows "\<exists>r. augment reference q = Inr r
          \<and> var_names r = reference
          \<and> length (X r) = length reference \<and> length (counts r) = length reference
          \<and> length (missing_genes reference q) = card (set reference - set (var_names q))
          \<and> (\<forall>i < length reference. reference ! i \<notin> set (var_names q) \<longrightarrow>
                X r ! i = replicate (n_obs q) 0 \<and> counts r ! i = replicate (n_obs q) 0)
          \<and> (\<forall>i < length reference. \<forall>j < length (var_names q).
                reference ! i = var_names q ! j \<longrightarrow>
                X r ! i = X q ! j \<and> counts r ! i = counts q ! j)"
proof -
  let ?m = "missing_genes reference q"
  let ?z = "replicate (length ?m) (replicate (n_obs q) (0 :: 'a))"
  let ?pos = "\<lambda>l. position l (var_names q @ ?m)"
  let ?r = "\<lparr> obs_names = obs_names q, var_names = reference,
                X = map (\<lambda>l. (X q @ ?z) ! ?pos l) reference,
                counts = map (\<lambda>l. (counts q @ ?z) ! ?pos l) reference \<rparr>"
  have run: "augment reference q = Inr ?r"
    using assms(1,2,3) by (rule augment_success)
  have count: "length ?m = card (set reference - set (var_names q))"
    using assms(2) by (simp add: distinct_card [symmetric] missing_genes_set)
  have zero: "(X q @ ?z) ! ?pos g = replicate (n_obs q) 0
            \<and> (counts q @ ?z) ! ?pos g = replicate (n_obs q) 0"
    if "g \<in> set reference" "g \<notin> set (var_names q)" for g
  proof -
    have "g \<in> set ?m" using that by (simp add: missing_genes_set)
    then have "position g ?m < length ?m" by (rule position_less)
    then show ?thesis
      using that(2) assms(4,5) by (simp add: position_append nth_append)
  qed
  have kept: "(X q @ ?z) ! ?pos (var_names q ! j) = X q ! j
            \<and> (counts q @ ?z) ! ?pos (var_names q ! j) = counts q ! j"
    if "j < length (var_names q)" for j
    using that assms(1,4,5) by (simp add: position_append position_nth nth_append)
  show ?thesis
  proof (intro exI [of _ ?r] conjI allI impI)
    show "augment reference q = Inr ?r" by (rule run)
    show "length ?m = card (set reference - set (var_names q))" by (rule count)
  next
    fix i assume "i < length reference" "reference ! i \<notin> set (var_names q)"
    then show "X ?r ! i = replicate (n_obs q) 0" "counts ?r ! i = replicate (n_obs q) 0"
      using zero [of "reference ! i"] by simp_all
  next
    fix i j assume "i < length reference" "j < length (var_names q)"
      "reference ! i = var_names q ! j"
    then show "X ?r ! i = X q ! j" "counts ?r ! i = counts q ! j"
      using kept [of j] by simp_all
  qed simp_all
qed

theorem feature_augmentation_witness:
  "augment [''g1'', ''g2'', ''g3''] example_query
     = Inr \<lparr> obs_names = [''c1'', ''c2''], var_names = [''g1'', ''g2'', ''g3''],
             X = [[3, 4], [0, 0], [1, 2]], counts = [[3, 4], [0, 0], [1, 2]] \<rparr>
   \<and> length (missing_genes [''g1'', ''g2'', ''g3''] example_query) = 1"
proof -
  have run: "augment [''g1'', ''g2'', ''g3''] example_query
     = Inr \<lparr> obs_names = [''c1'', ''c2''], var_names = [''g1'', ''g2'', ''g3''],
             X = [[3, 4], [0, 0], [1, 2]], counts = [[3, 4], [0, 0], [1, 2]] \<rparr>"
    by code_simp
  have pre: "distinct (var_names example_query)"
      "distinct (missing_genes [''g1'', ''g2'', ''g3''] example_query)"
      "distinct (obs_names example_query)"
      "length (X example_query) = length (var_names example_query)"
      "length (counts example_query) = length (var_names example_query)"
    by code_simp+
  have card: "card (set [''g1'', ''g2'', ''g3''] - set (var_names example_query)) = 1"
    by (simp add: example_query_def)
  from feature_augmentation [OF pre] run card show ?thesis by auto
qed

text \<open>
  C3 as stated fails for a query in which two cells share a name: it has both cells'
  values for \<open>g1\<close> and \<open>g3\<close> and lacks only \<open>g2\<close>, yet the concatenation raises and no
  augmented dataset results.
\<close>

theorem feature_augmentation_repeated_cell_name:
  "augment [''g1'', ''g2'', ''g3''] (example_query \<lparr> obs_names := [''c1'', ''c1''] \<rparr>)
     = Inl InvalidIndexError"
  by code_simp

text \<open>Likewise outside the theorem: a gene id repeated in the query, or among the missing ids.\<close>

lemma feature_augmentation_repeated_query_id:
  "augment [''g1'', ''g2'', ''g3''] (example_query \<lparr> var_names := [''g3'', ''g1'', ''g1''] \<rparr>)
     = Inl InvalidIndexError"
  by code_simp

lemma feature_augmentation_repeated_missing_id:
  "augment [''g1'', ''g2'', ''g2'', ''g3''] example_query
     = Inl (ValueError ''var must have as many rows as X has columns'')"
  by code_simp

subsection \<open>Treatment and week of a sample\<close>

lemma split_on_nonempty: "split_on sep s \<noteq> []"
  by (induction s) (auto split: list.splits)

lemma sample_ids_all_match:
  "\<forall>p \<in> set sample_paths. re_search_CE p \<noteq> None \<Longrightarrow>
   sample_ids sample_paths = map id_of_path sample_paths"
proof (induction sample_paths)
  case Nil
  then show ?case by (simp add: sample_ids_def List.map_filter_simps)
next
  case (Cons p ps)
  then obtain m where "re_search_CE p = Some m" by auto
  with Cons show ?case
    by (simp add: sample_ids_def List.map_filter_simps id_of_path_def)
qed

lemma sample_week_two_tokens:
  "2 \<le> length (tokens name) \<Longrightarrow> sample_week name = Inr (tokens name ! 1)"
  unfolding sample_week_def tokens_def
  by (cases "split_on (CHR ''_'') name" rule: remdups_adj.cases) simp_all

lemma sample_treatment_first_token:
  "sample_treatment name
     = (if tokens name ! 0 = ''C'' then ''Control'' else tokens name ! 0)"
  unfolding sample_treatment_def tokens_def
  using split_on_nonempty [of "CHR ''_''" name]
  by (cases "split_on (CHR ''_'') name") simp_all

lemma collect_weeks:
  "\<forall>n \<in> set names. 2 \<le> length (tokens n) \<Longrightarrow>
   collect (map sample_week names) = Inr (map (\<lambda>n. tokens n ! 1) names)"
  by (induction names) (simp_all add: sample_week_two_tokens)

lemma dict_set_fresh: "k \<notin> fst ` set d \<Longrightarrow> dict_set d k v = d @ [(k, v)]"
  by (induction d) auto

lemma foldl_dict_set_distinct:
  "distinct (map fst (d @ kvs)) \<Longrightarrow> foldl (\<lambda>d (k, v). dict_set d k v) d kvs = d @ kvs"
proof (induction kvs arbitrary: d)
  case Nil
  then show ?case by simp
next
  case (Cons kv kvs)
  obtain k v where kv: "kv = (k, v)" by (cases kv)
  have fresh: "k \<notin> fst ` set d" using Cons.prems kv by auto
  have "distinct (map fst ((d @ [(k, v)]) @ kvs))" using Cons.prems kv by simp
  then have "foldl (\<lambda>d (k, v). dict_set d k v) (d @ [(k, v)]) kvs = (d @ [(k, v)]) @ kvs"
    by (rule Cons.IH)
  then show ?case using kv fresh by (simp add: dict_set_fresh)
qed

lemma dict_of_distinct: "distinct (map fst kvs) \<Longrightarrow> dict_of kvs = kvs"
  unfolding dict_of_def using foldl_dict_set_distinct [of "[]" kvs] by simp

lemma zip_map_same: "zip (map f xs) (map g xs) = map (\<lambda>x. (f x, g x)) xs"
  by (induction xs) simp_all

lemma zip_same_map: "zip xs (map g xs) = map (\<lambda>x. (x, g x)) xs"
  by (induction xs) simp_all

lemma merge_samples_by_id:
  assumes "sample_paths \<noteq> []"
    and "\<forall>p \<in> set sample_paths. re_search_CE p \<noteq> None"
    and "distinct (map id_of_path sample_paths)"
    and "\<forall>p \<in> set sample_paths. 2 \<le> length (tokens (id_of_path p))"
  shows "merge_samples read_h5ad sample_paths
           = Inr (concat (map (\<lambda>p. map (\<lambda>c.
                   \<lparr> cell = c,
                     treatment = (if tokens (id_of_path p) ! 0 = ''C'' then ''Control''
                                  else tokens (id_of_path p) ! 0),
                     week = tokens (id_of_path p) ! 1,
                     sample = id_of_path p \<rparr>) (read_h5ad p)) sample_paths))"
proof -
  let ?tr = "\<lambda>p. if tokens (id_of_path p) ! 0 = ''C'' then ''Control''
                  else tokens (id_of_path p) ! 0"
  let ?wk = "\<lambda>p. tokens (id_of_path p) ! 1"
  let ?entry = "\<lambda>p. (id_of_path p, p, ?tr p, ?wk p)"
  have ids: "sample_ids sample_paths = map id_of_path sample_paths"
    using assms(2) by (rule sample_ids_all_match)
  have weeks: "collect (map sample_week (map id_of_path sample_paths))
                 = Inr (map ?wk sample_paths)"
    using assms(4) collect_weeks [of "map id_of_path sample_paths"] by (simp add: comp_def)
  have treatments: "map sample_treatment (map id_of_path sample_paths) = map ?tr sample_paths"
    by (simp add: sample_treatment_first_token)
  have zipped: "zip (map id_of_path sample_paths)
                  (zip sample_paths (zip (map ?tr sample_paths) (map ?wk sample_paths)))
                = map ?entry sample_paths"
    by (simp add: zip_map_same zip_same_map)
  have keys: "map fst (map ?entry sample_paths) = map id_of_path sample_paths"
    by simp
  have dict: "dict_of (map ?entry sample_paths) = map ?entry sample_paths"
    using assms(3) by (intro dict_of_distinct) (simp only: keys)
  have some: "map ?entry sample_paths \<noteq> []"
    using assms(1) by simp
  show ?thesis
    unfolding merge_samples_def Let_def ids weeks treatments
    using some by (simp only: zipped dict sum.case if_False) (simp add: load_sample_def comp_def)
qed

lemma id_of_path_spec:
  "affixes_leading_only (identifier_of p) \<Longrightarrow> id_of_path p = spec_id (identifier_of p)"
  unfolding affixes_leading_only_def identifier_of_def id_of_path_def
  by (cases "re_search_CE p") (simp_all add: spec_id_def strip_prefix_def)

text \<open>
  C7, as the notebook has it. Let the glob yield at least one path, every path contain
  a match of \<open>CE[a-zA-Z0-9_]*\<close>, and every matched identifier have \<open>CE_SC_\<close> and \<open>5FU_\<close>
  as leading prefixes only; let the stripped identifiers be pairwise different, each
  with at least two tokens. Then the merge succeeds and every cell of every file
  carries: as \<open>treatment\<close> the first \<open>_\<close>-separated token of its file's stripped
  identifier (\<open>C\<close> written \<open>Control\<close>), as \<open>week\<close> the second token, and as \<open>sample\<close>
  the stripped identifier. These are the values in the merged dataset; nothing later
  reassigns them.
\<close>

theorem merge_attaches_treatment_and_week:
  assumes "sample_paths \<noteq> []"
    and "\<forall>p \<in> set sample_paths. re_search_CE p \<noteq> None"
    and "\<forall>p \<in> set sample_paths. affixes_leading_only (identifier_of p)"
    and "distinct (map (\<lambda>p. spec_id (identifier_of p)) sample_paths)"
    and "\<forall>p \<in> set sample_paths. 2 \<le> length (spec_tokens (identifier_of p))"
  shows "merge_samples read_h5ad sample_paths
           = Inr (concat (map (\<lambda>p. map (\<lambda>c.
                   \<lparr> cell = c,
                     treatment = (if spec_tokens (identifier_of p) ! 0 = ''C'' then ''Control''
                                  else spec_tokens (identifier_of p) ! 0),
                     week = spec_tokens (identifier_of p) ! 1,
                     sample = spec_id (identifier_of p) \<rparr>) (read_h5ad p)) sample_paths))"
proof -
  have same: "id_of_path p = spec_id (identifier_of p)" if "p \<in> set sample_paths" for p
    using that assms(3) by (simp add: id_of_path_spec)
  have ids: "map id_of_path sample_paths = map (\<lambda>p. spec_id (identifier_of p)) sample_paths"
    using same by simp
  have d: "distinct (map id_of_path sample_paths)"
    using assms(4) by (simp only: ids)
  have two: "\<forall>p \<in> set sample_paths. 2 \<le> length (tokens (id_of_path p))"
    using assms(5) same by (simp add: spec_tokens_def)
  have "merge_samples read_h5ad sample_paths
           = Inr (concat (map (\<lambda>p. map (\<lambda>c.
                   \<lparr> cell = c,
                     treatment = (if tokens (id_of_path p) ! 0 = ''C'' then ''Control''
                                  else tokens (id_of_path p) ! 0),
                     week = tokens (id_of_path p) ! 1,
                     sample = id_of_path p \<rparr>) (read_h5ad p)) sample_paths))"
    using assms(1,2) d two by (rule merge_samples_by_id)
  also have "(map (\<lambda>p. map (\<lambda>c.
                   \<lparr> cell = c,
                     treatment = (if tokens (id_of_path p) ! 0 = ''C'' then ''Control''
                                  else tokens (id_of_path p) ! 0),
                     week = tokens (id_of_path p) ! 1,
                     sample = id_of_path p \<rparr>) (read_h5ad p)) sample_paths)
           = (map (\<lambda>p. map (\<lambda>c.
                   \<lparr> cell = c,
                     treatment = (if spec_tokens (identifier_of p) ! 0 = ''C'' then ''Control''
                                  else spec_tokens (identifier_of p) ! 0),
                     week = spec_tokens (identifier_of p) ! 1,
                     sample = spec_id (identifier_of p) \<rparr>) (read_h5ad p)) sample_paths)"
    using same by (intro map_cong refl) (simp add: spec_tokens_def)
  finally show ?thesis .
qed

theorem merge_attaches_treatment_and_week_witness:
  "merge_samples one_cell_per_file
     [''/r/CE_SC_5FU_OnOff_3/annotation.h5ad'', ''/r/CE_SC_C_1/annotation.h5ad'']
   = Inr [\<lparr> cell = ''/r/CE_SC_5FU_OnOff_3/annotation.h5ad'', treatment = ''OnOff'',
            week = ''3'', sample = ''OnOff_3'' \<rparr>,
          \<lparr> cell = ''/r/CE_SC_C_1/annotation.h5ad'', treatment = ''Control'',
            week = ''1'', sample = ''C_1'' \<rparr>]"
proof -
  let ?ps = "[''/r/CE_SC_5FU_OnOff_3/annotation.h5ad'', ''/r/CE_SC_C_1/annotation.h5ad'']"
  have pre: "?ps \<noteq> []"
      "\<forall>p \<in> set ?ps. re_search_CE p \<noteq> None"
      "\<forall>p \<in> set ?ps. affixes_leading_only (identifier_of p)"
      "distinct (map (\<lambda>p. spec_id (identifier_of p)) ?ps)"
      "\<forall>p \<in> set ?ps. 2 \<le> length (spec_tokens (identifier_of p))"
    by code_simp+
  have ids: "spec_id (identifier_of ''/r/CE_SC_5FU_OnOff_3/annotation.h5ad'') = ''OnOff_3''"
      "spec_id (identifier_of ''/r/CE_SC_C_1/annotation.h5ad'') = ''C_1''"
    by code_simp+
  have toks: "spec_tokens (identifier_of ''/r/CE_SC_5FU_OnOff_3/annotation.h5ad'')
                = [''OnOff'', ''3'']"
      "spec_tokens (identifier_of ''/r/CE_SC_C_1/annotation.h5ad'') = [''C'', ''1'']"
    by code_simp+
  from merge_attaches_treatment_and_week [OF pre, of one_cell_per_file]
  show ?thesis by (simp add: ids toks one_cell_per_file_def)
qed

text \<open>
  C7 as stated fails when an identifier has a single token: the path
  \<open>/r/CE_SC_5FU_Conti/annotation.h5ad\<close> contains a match, nothing checks its shape, and
  \<open>split("_")[1]\<close> raises \<open>IndexError\<close> for the whole step, so that the well-formed
  sample \<open>CE_SC_5FU_OnOff_3\<close> next to it gets nothing attached either.
\<close>

theorem merge_counterexample:
  "re_search_CE ''/r/CE_SC_5FU_OnOff_3/annotation.h5ad'' = Some ''CE_SC_5FU_OnOff_3''
   \<and> spec_tokens ''CE_SC_5FU_OnOff_3'' = [''OnOff'', ''3'']
   \<and> re_search_CE ''/r/CE_SC_5FU_Conti/annotation.h5ad'' = Some ''CE_SC_5FU_Conti''
   \<and> merge_samples one_cell_per_file
         [''/r/CE_SC_5FU_OnOff_3/annotation.h5ad'', ''/r/CE_SC_5FU_Conti/annotation.h5ad'']
       = Inl IndexError"
  by code_simp

text \<open>
  Outside the hypotheses of the theorem. The substitutions are not anchored, although
  the notebook calls them removing a prefix: a \<open>5FU_\<close> inside the identifier is removed
  as well. A path without a match is dropped from the ids but not from the paths they
  are zipped with, so the ids shift onto the wrong files. A repeated id keeps only the
  last of its files. An empty glob leaves nothing to concatenate.
\<close>

lemma merge_unanchored_example:
  "spec_tokens ''CE_SC_X5FU_1_2'' = [''X5FU'', ''1'', ''2'']
   \<and> merge_samples one_cell_per_file [''/r/CE_SC_X5FU_1_2/annotation.h5ad'']
       = Inr [\<lparr> cell = ''/r/CE_SC_X5FU_1_2/annotation.h5ad'', treatment = ''X1'',
                week = ''2'', sample = ''X1_2'' \<rparr>]"
  by code_simp

lemma merge_shifted_example:
  "merge_samples one_cell_per_file [''/r/other/annotation.h5ad'', ''/r/CE_SC_C_1/annotation.h5ad'']
   = Inr [\<lparr> cell = ''/r/other/annotation.h5ad'', treatment = ''Control'', week = ''1'',
            sample = ''C_1'' \<rparr>]"
  by code_simp

lemma merge_repeated_id_example:
  "merge_samples one_cell_per_file
     [''/a/CE_SC_C_1/annotation.h5ad'', ''/b/CE_SC_C_1/annotation.h5ad'']
   = Inr [\<lparr> cell = ''/b/CE_SC_C_1/annotation.h5ad'', treatment = ''Control'', week = ''1'',
            sample = ''C_1'' \<rparr>]"
  by code_simp

lemma merge_empty_glob:
  "merge_samples one_cell_per_file [] = Inl (ValueError ''No objects to concatenate'')"
  by code_simp
end
